theory Spec2Isabelle
  imports Main
begin

section \<open>JavaScript strings\<close>

text \<open>
  A JavaScript string is a sequence of UTF-16 code units. The bullet character
  U+2022 of the reply parser is one code unit (8226), which is why strings are
  lists of code units here and not lists of 8-bit characters. \<open>js\<close> injects an
  ASCII literal.
\<close>

type_synonym jsstring = "nat list"

definition js :: "string \<Rightarrow> jsstring" where
  "js s = map of_char s"

text \<open>
  \<open>String.prototype.trim\<close> removes WhiteSpace and LineTerminator code units from
  both ends; the regular expression class \<open>\s\<close> is the same set.
\<close>

definition isWhiteSpace :: "nat \<Rightarrow> bool" where
  "isWhiteSpace c \<longleftrightarrow>
     c \<in> set [9, 10, 11, 12, 13, 32, 160, 5760, 8232, 8233, 8239, 8287, 12288, 65279]
     \<or> (8192 \<le> c \<and> c \<le> 8202)"

definition isLineTerminator :: "nat \<Rightarrow> bool" where
  "isLineTerminator c \<longleftrightarrow> c \<in> set [10, 13, 8232, 8233]"

definition trim :: "jsstring \<Rightarrow> jsstring" where
  "trim s = rev (dropWhile isWhiteSpace (rev (dropWhile isWhiteSpace s)))"

text \<open>\<open>s.split(sep)\<close> for a separator of one code unit: never an empty array.\<close>

fun split :: "nat \<Rightarrow> jsstring \<Rightarrow> jsstring list" where
  "split sep [] = [[]]"
| "split sep (c # cs) =
     (if c = sep then [] # split sep cs
      else (case split sep cs of [] \<Rightarrow> [[c]] | w # ws \<Rightarrow> (c # w) # ws))"

definition startsWith :: "jsstring \<Rightarrow> jsstring \<Rightarrow> bool" where
  "startsWith p s \<longleftrightarrow> take (length p) s = p"

section \<open>Regular expressions\<close>

text \<open>
  The fragment of JavaScript regular expressions that the sources use: literal
  characters, bracket classes, \<open>\s\<close>, \<open>.\<close>, \<open>^\<close>, sequence, alternation and
  the greedy quantifiers \<open>*\<close> and \<open>+\<close>. Groups only group (no replacement
  refers to a capture), and the expressions with a bracket class are the ones
  without the flag \<open>i\<close>.
\<close>

datatype regex =
    Chars jsstring
  | Class "(nat \<times> nat) list"
  | Space
  | AnyChar
  | Bol
  | Seq regex regex
  | Alt regex regex
  | Star regex

datatype regexp = RegExp (source: regex) (ignoreCase: bool)

text \<open>\<open>r+\<close> for an \<open>r\<close> that consumes a character is \<open>rr*\<close>.\<close>

definition Plus :: "regex \<Rightarrow> regex" where
  "Plus r = Seq r (Star r)"

fun seqs :: "regex list \<Rightarrow> regex" where
  "seqs [] = Chars []"
| "seqs [r] = r"
| "seqs (r # rs) = Seq r (seqs rs)"

text \<open>
  Canonicalize of the flag \<open>i\<close> (non-unicode mode) maps a code unit to its upper
  case, unless that would take a code unit from 128 upwards to one below 128.
  The patterns of the sources hold ASCII characters only, so a subject code
  unit from 128 upwards never equals a canonicalized pattern character, and
  upper-casing the ASCII letters decides every comparison that is made.
\<close>

definition canonicalize :: "bool \<Rightarrow> nat \<Rightarrow> nat" where
  "canonicalize ic c = (if ic \<and> 97 \<le> c \<and> c \<le> 122 then c - 32 else c)"

definition inClass :: "(nat \<times> nat) list \<Rightarrow> nat \<Rightarrow> bool" where
  "inClass rs c \<longleftrightarrow> (\<exists>(lo, hi) \<in> set rs. lo \<le> c \<and> c \<le> hi)"

text \<open>
  Greedy repetition: one more iteration is tried before stopping, and an
  iteration that consumes nothing is rejected, as RepeatMatcher does. Every
  accepted iteration shortens the subject, so \<open>length s\<close> rounds are enough.
\<close>

fun star :: "(jsstring \<Rightarrow> jsstring list) \<Rightarrow> nat \<Rightarrow> jsstring \<Rightarrow> jsstring list" where
  "star f 0 s = [s]"
| "star f (Suc k) s =
     concat (map (star f k) (filter (\<lambda>t. length t < length s) (f s))) @ [s]"

text \<open>
  \<open>matchAt ic n r s\<close>: the backtracking matcher at the position where \<open>s\<close> is
  what is left of a subject of length \<open>n\<close>. The result lists what is left after
  each way to match, in the order in which backtracking tries them: the head
  is the match that JavaScript reports.
\<close>

fun matchAt :: "bool \<Rightarrow> nat \<Rightarrow> regex \<Rightarrow> jsstring \<Rightarrow> jsstring list" where
  "matchAt ic n (Chars p) s =
     (if length p \<le> length s
         \<and> map (canonicalize ic) (take (length p) s) = map (canonicalize ic) p
      then [drop (length p) s] else [])"
| "matchAt ic n (Class rs) s =
     (case s of [] \<Rightarrow> [] | c # t \<Rightarrow> if inClass rs c then [t] else [])"
| "matchAt ic n Space s =
     (case s of [] \<Rightarrow> [] | c # t \<Rightarrow> if isWhiteSpace c then [t] else [])"
| "matchAt ic n AnyChar s =
     (case s of [] \<Rightarrow> [] | c # t \<Rightarrow> if isLineTerminator c then [] else [t])"
| "matchAt ic n Bol s = (if length s = n then [s] else [])"
| "matchAt ic n (Seq a b) s = concat (map (matchAt ic n b) (matchAt ic n a s))"
| "matchAt ic n (Alt a b) s = matchAt ic n a s @ matchAt ic n b s"
| "matchAt ic n (Star a) s = star (matchAt ic n a) (length s) s"

text \<open>
  The search of \<open>RegExp.prototype.exec\<close> without the flags \<open>g\<close> and \<open>y\<close>: start
  positions from the left, the end of the subject included. The result is the
  text before the match and the text after it.
\<close>

fun search :: "(jsstring \<Rightarrow> jsstring list) \<Rightarrow> jsstring \<Rightarrow> jsstring \<Rightarrow> (jsstring \<times> jsstring) option" where
  "search f pre [] = (case f [] of [] \<Rightarrow> None | r # _ \<Rightarrow> Some (pre, r))"
| "search f pre (c # t) =
     (case f (c # t) of [] \<Rightarrow> search f (pre @ [c]) t | r # _ \<Rightarrow> Some (pre, r))"

definition exec :: "regexp \<Rightarrow> jsstring \<Rightarrow> (jsstring \<times> jsstring) option" where
  "exec re s = search (matchAt (ignoreCase re) (length s) (source re)) [] s"

definition test :: "regexp \<Rightarrow> jsstring \<Rightarrow> bool" where
  "test re s \<longleftrightarrow> exec re s \<noteq> None"

text \<open>\<open>s.replace(re, rep)\<close> for a replacement text without \<open>$\<close>: the first match only.\<close>

definition replace :: "regexp \<Rightarrow> jsstring \<Rightarrow> jsstring \<Rightarrow> jsstring" where
  "replace re rep s = (case exec re s of None \<Rightarrow> s | Some (pre, post) \<Rightarrow> pre @ rep @ post)"

section \<open>The reply section parser (formatBotReply)\<close>

text \<open>
  The keys of the \<open>matchers\<close> object, in the order in which \<open>for (let key in matchers)\<close>
  visits them, and the value stored under a key of \<open>sections\<close>: a string for
  a scalar section, an array for a list section.
\<close>

datatype key =
    Severity
  | Immediate_Need_for_Attention
  | See_a_Doctor_If
  | Next_Steps
  | Possible_Conditions
  | Disclaimer

datatype entry = Text jsstring | Items "jsstring list"

record parser =
  sections :: "key \<Rightarrow> entry option"
  currentKey :: "key option"

definition matcherKeys :: "key list" where
  "matcherKeys = [Severity, Immediate_Need_for_Attention, See_a_Doctor_If, Next_Steps,
     Possible_Conditions, Disclaimer]"

fun matchers :: "key \<Rightarrow> regexp" where
  "matchers Severity =
     RegExp (seqs [Chars (js ''severity''), Star Space, Chars (js '':'')]) True"
| "matchers Immediate_Need_for_Attention =
     RegExp (seqs [Chars (js ''immediate''), Plus Space, Chars (js ''need''), Plus Space,
       Chars (js ''for''), Plus Space, Chars (js ''attention''), Star Space, Chars (js '':'')]) True"
| "matchers See_a_Doctor_If =
     RegExp (seqs [Alt (Chars (js ''see'')) (Chars (js ''seek'')), Star AnyChar,
       Alt (Chars (js ''doctor'')) (Chars (js ''medical''))]) True"
| "matchers Next_Steps =
     RegExp (seqs [Chars (js ''next''), Plus Space, Chars (js ''steps''), Star Space,
       Chars (js '':'')]) True"
| "matchers Possible_Conditions =
     RegExp (seqs [Chars (js ''possible''), Plus Space, Chars (js ''conditions''), Star Space,
       Chars (js '':'')]) True"
| "matchers Disclaimer =
     RegExp (seqs [Chars (js ''disclaimer''), Star Space, Chars (js '':'')]) True"

definition listKeys :: "key list" where
  "listKeys = [See_a_Doctor_If, Next_Steps, Possible_Conditions]"

text \<open>The three expressions of the bullet branches: \<open>/^-/\<close>, \<open>/^[-\<bullet>*0-9]+\./\<close> and
  \<open>/^[-\<bullet>*0-9.]+\s*/\<close> (the bullet is the code unit 8226).\<close>

definition dashRe :: regexp where
  "dashRe = RegExp (seqs [Bol, Chars (js ''-'')]) False"

definition numberedRe :: regexp where
  "numberedRe =
     RegExp (seqs [Bol, Plus (Class [(45, 45), (8226, 8226), (42, 42), (48, 57)]),
       Chars (js ''.'')]) False"

definition markerRe :: regexp where
  "markerRe =
     RegExp (seqs [Bol, Plus (Class [(45, 45), (8226, 8226), (42, 42), (48, 57), (46, 46)]),
       Star Space]) False"

text \<open>\<open>currentKey && Array.isArray(sections[currentKey])\<close> and \<open>sections[currentKey].push(item)\<close>.\<close>

definition isArrayAtCurrent :: "parser \<Rightarrow> bool" where
  "isArrayAtCurrent st \<longleftrightarrow>
     (case currentKey st of
        None \<Rightarrow> False
      | Some k \<Rightarrow> (case sections st k of Some (Items xs) \<Rightarrow> True | _ \<Rightarrow> False))"

definition push :: "jsstring \<Rightarrow> parser \<Rightarrow> parser" where
  "push item st =
     (case currentKey st of
        None \<Rightarrow> st
      | Some k \<Rightarrow>
          (case sections st k of
             Some (Items xs) \<Rightarrow> st\<lparr>sections := (sections st)(k \<mapsto> Items (xs @ [item]))\<rparr>
           | _ \<Rightarrow> st))"

text \<open>The first key whose matcher accepts the line: the \<open>for\<close> loop with its \<open>return\<close>.\<close>

definition headerOf :: "jsstring \<Rightarrow> key option" where
  "headerOf line = find (\<lambda>key. test (matchers key) line) matcherKeys"

text \<open>The body of \<open>lines.forEach\<close>.\<close>

definition scanLine :: "jsstring \<Rightarrow> parser \<Rightarrow> parser" where
  "scanLine line st =
     (case headerOf line of
        Some key \<Rightarrow>
          \<lparr>sections = (sections st)(key \<mapsto>
               (if key \<in> set listKeys then Items []
                else Text (trim (replace (matchers key) [] line)))),
           currentKey = Some key\<rparr>
      | None \<Rightarrow>
          if startsWith (js ''-'') line \<and> isArrayAtCurrent st
          then push (trim (replace dashRe [] line)) st
          else if test numberedRe line \<and> isArrayAtCurrent st
          then push (trim (replace markerRe [] line)) st
          else st)"

definition initial :: parser where
  "initial = \<lparr>sections = (\<lambda>k. None), currentKey = None\<rparr>"

definition scanLines :: "jsstring list \<Rightarrow> parser \<Rightarrow> parser" where
  "scanLines ls st = foldl (\<lambda>st line. scanLine line st) st ls"

text \<open>\<open>text.split("\n").map((l) => l.trim()).filter(Boolean)\<close>\<close>

definition linesOf :: "jsstring \<Rightarrow> jsstring list" where
  "linesOf text = filter (\<lambda>l. l \<noteq> []) (map trim (split 10 text))"

text \<open>
  \<open>formatBotReply\<close> up to the \<open>sections\<close> object it builds; the JSX it returns
  shows a scalar section when its text is not empty and a list section when it
  has an item.
\<close>

definition formatBotReply :: "jsstring \<Rightarrow> parser" where
  "formatBotReply text = scanLines (linesOf text) initial"

section \<open>The chat client (App.jsx)\<close>

text \<open>\<open>x || d\<close> on a value that is a string or \<open>undefined\<close>: the empty string is falsy.\<close>

definition orElse :: "jsstring option \<Rightarrow> jsstring \<Rightarrow> jsstring" where
  "orElse x d = (case x of None \<Rightarrow> d | Some v \<Rightarrow> if v = [] then d else v)"

datatype role = user | bot

datatype message = Message role jsstring

text \<open>
  The two requests that the client issues with \<open>fetch\<close>, with the fields of
  their JSON bodies: \<open>{symptoms}\<close> and \<open>{audio, mimeType}\<close>. A field whose
  value is \<open>undefined\<close> is left out by \<open>JSON.stringify\<close>.
\<close>

datatype request =
    PostChat jsstring
  | PostTranscribe "jsstring option" jsstring

datatype 'a settled = Resolved 'a | Rejected

datatype recorder = MediaRecorder (recorderMimeType: jsstring)

text \<open>
  The state of the component: the six \<open>useState\<close> cells and two refs that the
  handlers use, and four observations of what the handlers did to the world:
  the requests issued, the number of calls of \<open>startListening\<close> that wait for
  \<open>getUserMedia\<close>, the number of streams that \<open>getUserMedia\<close> granted and the
  number of streams whose tracks were stopped. A chunk of audio is represented
  by its size in bytes.
\<close>

record app =
  input :: jsstring
  messages :: "message list"
  isListening :: bool
  isTranscribing :: bool
  voiceError :: "jsstring option"
  mediaRecorderRef :: "recorder option"
  audioChunksRef :: "nat list"
  fetched :: "request list"
  pendingGetUserMedia :: nat
  acquired :: nat
  released :: nat

definition mounted :: app where
  "mounted = \<lparr>input = [], messages = [], isListening = False, isTranscribing = False,
     voiceError = None, mediaRecorderRef = None, audioChunksRef = [], fetched = [],
     pendingGetUserMedia = 0, acquired = 0, released = 0\<rparr>"

text \<open>
  \<open>sendMessage\<close> up to its \<open>fetch\<close>; \<open>textOverride\<close> is \<open>None\<close> when the argument
  is not a string (the click event of the Send button, or no argument).
\<close>

definition sendMessage :: "jsstring option \<Rightarrow> app \<Rightarrow> app" where
  "sendMessage textOverride s =
     (let t = (case textOverride of Some v \<Rightarrow> v | None \<Rightarrow> input s) in
      if trim t = [] then s
      else s\<lparr>input := [], messages := messages s @ [Message user t],
             fetched := fetched s @ [PostChat t]\<rparr>)"

text \<open>The rest of \<open>sendMessage\<close>: the response carries \<open>data.reply\<close>, or the \<open>fetch\<close> fails.\<close>

definition chatSettled :: "jsstring option settled \<Rightarrow> app \<Rightarrow> app" where
  "chatSettled r s =
     (case r of
        Resolved reply \<Rightarrow>
          s\<lparr>messages := messages s @ [Message bot (orElse reply (js ''No reply from server.''))]\<rparr>
      | Rejected \<Rightarrow>
          s\<lparr>messages := messages s @ [Message bot (js ''Error connecting to server.'')]\<rparr>)"

text \<open>
  What the \<open>try\<close> block of \<open>startListening\<close> can meet: \<open>getUserMedia\<close> rejects
  with an error of some name; or it grants a stream and the \<open>MediaRecorder\<close>
  constructor throws; or the recorder is made (with the mime type that the
  browser chose for it) and its \<open>start()\<close> throws; or recording starts.
\<close>

datatype acquisition =
    Refused jsstring
  | ConstructorThrew jsstring
  | StartThrew jsstring jsstring
  | Recording jsstring

definition catchMessage :: "jsstring \<Rightarrow> jsstring" where
  "catchMessage name =
     (if name = js ''NotAllowedError'' \<or> name = js ''PermissionDeniedError''
      then js ''Microphone access denied. Please allow mic in your browser settings.''
      else js ''Could not access microphone. Please check your device.'')"

text \<open>
  \<open>startListening\<close> awaits \<open>getUserMedia\<close>: other handlers can run between the
  two halves of a call. The first half is the guard, the two resets and the
  request for the device. The guard reads \<open>isListening\<close>, which only the second
  half sets.
\<close>

definition startListeningCalled :: "app \<Rightarrow> app" where
  "startListeningCalled s =
     (if isListening s \<or> isTranscribing s then s
      else s\<lparr>voiceError := None, audioChunksRef := [],
             pendingGetUserMedia := pendingGetUserMedia s + 1\<rparr>)"

text \<open>
  The second half runs when the request of a waiting call settles: the rest of
  the \<open>try\<close> block, or the \<open>catch\<close> block, which sets the error message and
  nothing else.
\<close>

definition getUserMediaSettled :: "acquisition \<Rightarrow> app \<Rightarrow> app" where
  "getUserMediaSettled a s =
     (if pendingGetUserMedia s = 0 then s
      else
        let s0 = s\<lparr>pendingGetUserMedia := pendingGetUserMedia s - 1\<rparr> in
        case a of
          Refused name \<Rightarrow> s0\<lparr>voiceError := Some (catchMessage name)\<rparr>
        | ConstructorThrew name \<Rightarrow>
            s0\<lparr>acquired := acquired s0 + 1, voiceError := Some (catchMessage name)\<rparr>
        | StartThrew mt name \<Rightarrow>
            s0\<lparr>acquired := acquired s0 + 1, mediaRecorderRef := Some (MediaRecorder mt),
               voiceError := Some (catchMessage name)\<rparr>
        | Recording mt \<Rightarrow>
            s0\<lparr>acquired := acquired s0 + 1, mediaRecorderRef := Some (MediaRecorder mt),
               isListening := True\<rparr>)"

text \<open>A call of \<open>startListening\<close> during whose await no other handler runs.\<close>

definition startListening :: "acquisition \<Rightarrow> app \<Rightarrow> app" where
  "startListening a s =
     (if isListening s \<or> isTranscribing s then s
      else getUserMediaSettled a (startListeningCalled s))"

definition ondataavailable :: "nat \<Rightarrow> app \<Rightarrow> app" where
  "ondataavailable n s =
     (if n > 0 then s\<lparr>audioChunksRef := audioChunksRef s @ [n]\<rparr> else s)"

text \<open>\<open>xs[1]\<close>: \<open>undefined\<close> when the array is too short.\<close>

fun second :: "'a list \<Rightarrow> 'a option" where
  "second (x # y # ys) = Some y"
| "second xs = None"

text \<open>
  The \<open>onstop\<close> handler of a recorder, with the \<open>onloadend\<close> handler of the
  \<open>FileReader\<close> that it starts, up to the \<open>fetch\<close>. \<open>dataUrl\<close> is what the reader
  produces for the blob (\<open>reader.result\<close>, a string once the read succeeded).
\<close>

definition onstop :: "recorder \<Rightarrow> jsstring \<Rightarrow> app \<Rightarrow> app" where
  "onstop r dataUrl s =
     (let s1 = s\<lparr>released := released s + 1\<rparr>;
          actualMimeType = orElse (Some (recorderMimeType r)) (js ''audio/webm'');
          blobSize = sum_list (audioChunksRef s1);
          s2 = s1\<lparr>audioChunksRef := []\<rparr>
      in if blobSize < 500
         then s2\<lparr>voiceError := Some (js ''No audio captured. Please try again.'')\<rparr>
         else
           let base64 = second (split 44 dataUrl) in
           s2\<lparr>isTranscribing := True,
              fetched := fetched s2 @ [PostTranscribe base64 actualMimeType]\<rparr>)"

text \<open>
  \<open>stopListening\<close>: \<open>stop()\<close> makes the recorder deliver the audio it holds to
  \<open>ondataavailable\<close> and then run \<open>onstop\<close>.
\<close>

definition stopListening :: "nat \<Rightarrow> jsstring \<Rightarrow> app \<Rightarrow> app" where
  "stopListening recorded dataUrl s =
     (case mediaRecorderRef s of
        None \<Rightarrow> s
      | Some r \<Rightarrow>
          if \<not> isListening s then s
          else onstop r dataUrl (ondataavailable recorded (s\<lparr>isListening := False\<rparr>)))"

definition toggleListening :: "acquisition \<Rightarrow> nat \<Rightarrow> jsstring \<Rightarrow> app \<Rightarrow> app" where
  "toggleListening a recorded dataUrl s =
     (if isListening s then stopListening recorded dataUrl s else startListening a s)"

text \<open>The response to the transcription request: \<open>data.transcript\<close> and \<open>data.error\<close>.\<close>

definition transcribeSettled :: "(jsstring option \<times> jsstring option) settled \<Rightarrow> app \<Rightarrow> app" where
  "transcribeSettled r s =
     (case r of
        Resolved (transcript, err) \<Rightarrow>
          (let s1 = s\<lparr>isTranscribing := False\<rparr> in
           if orElse transcript [] \<noteq> [] then sendMessage transcript s1
           else s1\<lparr>voiceError := Some (orElse err
                  (js ''Couldn't understand audio. Please try again or type.''))\<rparr>)
      | Rejected \<Rightarrow>
          s\<lparr>isTranscribing := False,
            voiceError := Some (js ''Transcription failed. Please type your symptoms.'')\<rparr>)"

text \<open>
  What can happen to the component, one step at a time. \<open>StartListening\<close> and
  \<open>ToggleListening\<close> are calls that nothing interrupts; \<open>StartListeningCalled\<close>
  and \<open>GetUserMediaSettled\<close> are the two halves of a call of \<open>startListening\<close>,
  between which other events may come. \<open>Unmount\<close> is the teardown of the
  component: no effect of the component returns a cleanup function, so nothing
  runs.
\<close>

datatype event =
    SetInput jsstring
  | SendMessage "jsstring option"
  | ChatSettled "jsstring option settled"
  | StartListening acquisition
  | StartListeningCalled
  | GetUserMediaSettled acquisition
  | StopListening nat jsstring
  | ToggleListening acquisition nat jsstring
  | TranscribeSettled "(jsstring option \<times> jsstring option) settled"
  | Unmount

fun handle :: "app \<Rightarrow> event \<Rightarrow> app" where
  "handle s (SetInput v) = s\<lparr>input := v\<rparr>"
| "handle s (SendMessage textOverride) = sendMessage textOverride s"
| "handle s (ChatSettled r) = chatSettled r s"
| "handle s (StartListening a) = startListening a s"
| "handle s StartListeningCalled = startListeningCalled s"
| "handle s (GetUserMediaSettled a) = getUserMediaSettled a s"
| "handle s (StopListening recorded dataUrl) = stopListening recorded dataUrl s"
| "handle s (ToggleListening a recorded dataUrl) = toggleListening a recorded dataUrl s"
| "handle s (TranscribeSettled r) = transcribeSettled r s"
| "handle s Unmount = s"

definition run :: "event list \<Rightarrow> app \<Rightarrow> app" where
  "run evs s = foldl handle s evs"

section \<open>The transcription endpoint of the server\<close>

record transcribeBody =
  audio :: "jsstring option"
  mimeType :: "jsstring option"

record inlineData =
  inlineMimeType :: jsstring
  inlineBytes :: jsstring

text \<open>
  The provider call either returns the text of \<open>result.response.text()\<close> or
  throws an error, whose \<open>message\<close> may be missing.
\<close>

datatype generated = Generated jsstring | Threw "jsstring option"

datatype payload = ErrorPayload jsstring | TranscriptPayload jsstring

datatype response = Json (status: nat) (payload: payload)

definition safeMimeType :: "jsstring option \<Rightarrow> jsstring" where
  "safeMimeType mt = trim (hd (split 59 (orElse mt (js ''audio/webm''))))"

definition transcribe :: "(inlineData \<Rightarrow> generated) \<Rightarrow> transcribeBody \<Rightarrow> response" where
  "transcribe generateContent body =
     (if orElse (audio body) [] = [] then Json 400 (ErrorPayload (js ''Audio data required''))
      else
        case generateContent
               \<lparr>inlineMimeType = safeMimeType (mimeType body),
                inlineBytes = orElse (audio body) []\<rparr> of
          Generated t \<Rightarrow>
            (let transcript = trim t in
             if transcript = []
             then Json 422 (ErrorPayload (js
               ''Gemini returned an empty transcript. Audio may be too quiet or silent.''))
             else Json 200 (TranscriptPayload transcript))
        | Threw msg \<Rightarrow> Json 500 (ErrorPayload (orElse msg (js ''Transcription failed''))))"

text \<open>The body that the server reads from a transcription request of the client.\<close>

fun bodyOf :: "request \<Rightarrow> transcribeBody option" where
  "bodyOf (PostTranscribe a mt) = Some \<lparr>audio = a, mimeType = Some mt\<rparr>"
| "bodyOf (PostChat t) = None"

section \<open>Notions used to state the properties\<close>

text \<open>
  The two tests of the bullet branches of \<open>scanLine\<close>, the item that the branch
  taken pushes, and the value that a header line stores under its key.
\<close>

definition isBullet :: "jsstring \<Rightarrow> bool" where
  "isBullet line \<longleftrightarrow> startsWith (js ''-'') line \<or> test numberedRe line"

definition bulletText :: "jsstring \<Rightarrow> jsstring" where
  "bulletText line =
     (if startsWith (js ''-'') line then trim (replace dashRe [] line)
      else trim (replace markerRe [] line))"

definition opened :: "key \<Rightarrow> jsstring \<Rightarrow> entry" where
  "opened k line =
     (if k \<in> set listKeys then Items [] else Text (trim (replace (matchers k) [] line)))"

text \<open>Arrays are stored under the keys of list sections only.\<close>

definition arraysUnderListKeys :: "parser \<Rightarrow> bool" where
  "arraysUnderListKeys st = (\<forall>k xs. sections st k \<noteq> Some (Items xs) \<or> k \<in> set listKeys)"

text \<open>
  The events in which a stream was granted and the recorder then threw, the
  events that are halves of a call of \<open>startListening\<close>, and the balance of the
  device: one stream is held exactly while the component is listening, and a
  listening component has its recorder at hand.
\<close>

fun recorderThrows :: "event \<Rightarrow> bool" where
  "recorderThrows (StartListening (ConstructorThrew name)) = True"
| "recorderThrows (StartListening (StartThrew mt name)) = True"
| "recorderThrows (ToggleListening (ConstructorThrew name) n u) = True"
| "recorderThrows (ToggleListening (StartThrew mt name) n u) = True"
| "recorderThrows e = False"

fun halfCall :: "event \<Rightarrow> bool" where
  "halfCall StartListeningCalled = True"
| "halfCall (GetUserMediaSettled a) = True"
| "halfCall e = False"

definition balanced :: "app \<Rightarrow> bool" where
  "balanced s \<longleftrightarrow>
     acquired s = released s + (if isListening s then 1 else 0)
     \<and> (\<not> isListening s \<or> mediaRecorderRef s \<noteq> None)"

section \<open>Example inputs\<close>

text \<open>
  Replies of the assistant, a recorder, a request and two runs of the
  handlers, at which the theorems are instantiated or evaluated below.
\<close>

definition replyWithStrayLines :: jsstring where
  "replyWithStrayLines =
     js ''Take care'' @ [10] @ js ''- chest pain'' @ [10] @ js ''Next Steps:''
       @ [10] @ js ''- rest''"

definition replyWithPlainLine :: jsstring where
  "replyWithPlainLine =
     js ''Next Steps:'' @ [10] @ js ''please rest'' @ [10] @ js ''- walk''"

definition replyWithRepeatedHeaders :: jsstring where
  "replyWithRepeatedHeaders =
     js ''Severity: Low'' @ [10] @ js ''Next Steps:'' @ [10] @ js ''- a''
       @ [10] @ js ''Severity: High'' @ [10] @ js ''Next Steps:'' @ [10] @ js ''- b''
       @ [10] @ js ''keep calm'' @ [10] @ js ''1. c'' @ [10] @ js ''Disclaimer: x''
       @ [10] @ js ''- d''"

definition replyWithBulletUnderScalar :: jsstring where
  "replyWithBulletUnderScalar =
     js ''Severity: High'' @ [10] @ js ''- stray'' @ [10] @ js ''Next Steps:''
       @ [10] @ js ''- x''"

definition replyWithBulletFirst :: jsstring where
  "replyWithBulletFirst = js ''- stray'' @ [10] @ js ''Severity: High''"

definition opusRecorder :: recorder where
  "opusRecorder = MediaRecorder (js ''audio/webm;codecs=opus'')"

definition opusDataUrl :: jsstring where
  "opusDataUrl = js ''data:audio/webm;codecs=opus;base64,QUJD''"

definition opusBody :: transcribeBody where
  "opusBody = \<lparr>audio = Some (js ''QUJD''), mimeType = Some (js ''audio/webm;codecs=opus'')\<rparr>"

definition headacheProvider :: "inlineData \<Rightarrow> generated" where
  "headacheProvider call =
     (if inlineMimeType call = js ''audio/webm'' then Generated (js '' I have a headache '')
      else Threw None)"

definition throwingStart :: "event list" where
  "throwingStart =
     [StartListening (ConstructorThrew (js ''NotSupportedError'')),
      StopListening 0 []]"

definition doubleStart :: "event list" where
  "doubleStart =
     [StartListeningCalled,
      StartListeningCalled,
      GetUserMediaSettled (Recording (js ''audio/webm'')),
      GetUserMediaSettled (Recording (js ''audio/webm'')),
      StopListening 2000 (js ''data:audio/webm;base64,QUJD''),
      StopListening 0 []]"

section \<open>Strings and lines\<close>

lemmas string_eval = js_def trim_def isWhiteSpace_def startsWith_def orElse_def

lemmas regexp_eval =
  test_def exec_def replace_def canonicalize_def isLineTerminator_def inClass_def Plus_def

lemmas parser_eval =
  string_eval regexp_eval headerOf_def matcherKeys_def listKeys_def dashRe_def numberedRe_def
  markerRe_def isArrayAtCurrent_def push_def scanLine_def scanLines_def linesOf_def
  formatBotReply_def initial_def isBullet_def bulletText_def

lemmas client_eval =
  run_def startListening_def startListeningCalled_def getUserMediaSettled_def
  stopListening_def toggleListening_def onstop_def ondataavailable_def mounted_def
  sendMessage_def transcribeSettled_def chatSettled_def catchMessage_def Let_def

lemma split_not_Nil: "split c s \<noteq> []"
  by (induction s) (auto split: list.splits)

lemma hd_split: "hd (split c s) = takeWhile (\<lambda>x. x \<noteq> c) s"
  by (induction s) (auto split: list.splits simp: split_not_Nil)

lemma split_append: "split c (a @ c # b) = split c a @ split c b"
  by (induction a) (auto split: list.splits simp: split_not_Nil)

lemma linesOf_append: "linesOf (a @ 10 # b) = linesOf a @ linesOf b"
  by (simp add: linesOf_def split_append)

lemma takeWhile_upto: "c \<notin> set a \<Longrightarrow> takeWhile (\<lambda>x. x \<noteq> c) (a @ c # b) = a"
  by (induction a) auto

lemma set_trim: "set (trim s) \<subseteq> set s"
  by (auto simp add: trim_def dest!: set_dropWhileD)

text \<open>The rounds that \<open>matchAt\<close> gives to \<open>star\<close> are enough: more change nothing.\<close>

lemma star_rounds: "length s \<le> k \<Longrightarrow> length s \<le> j \<Longrightarrow> star f k s = star f j s"
proof (induction k arbitrary: s j)
  case 0
  then show ?case by (cases j) simp_all
next
  case (Suc k)
  show ?case
  proof (cases j)
    case 0
    with Suc.prems show ?thesis by simp
  next
    case (Suc j')
    have same: "map (star f k) (filter (\<lambda>t. length t < length s) (f s))
        = map (star f j') (filter (\<lambda>t. length t < length s) (f s))"
    proof (rule map_cong [OF refl])
      fix t assume "t \<in> set (filter (\<lambda>t. length t < length s) (f s))"
      then have "length t < length s" by simp
      with Suc.prems Suc have "length t \<le> k" "length t \<le> j'" by simp_all
      then show "star f k t = star f j' t" by (rule Suc.IH)
    qed
    show ?thesis unfolding Suc star.simps same ..
  qed
qed

section \<open>Regular expressions: matches that are found\<close>






section \<open>Regular expressions: matches that are not found\<close>

lemma search_None: "(\<forall>i \<le> length s. f (drop i s) = []) \<Longrightarrow> search f pre s = None"
proof (induction s arbitrary: pre)
  case Nil
  then show ?case by simp
next
  case (Cons c t)
  from Cons.prems have "f (drop 0 (c # t)) = []" by blast
  then have here: "f (c # t) = []" by simp
  have "f (drop i t) = []" if "i \<le> length t" for i
    using Cons.prems [rule_format, of "Suc i"] that by simp
  then have "search f (pre @ [c]) t = None"
    by (intro Cons.IH) simp
  with here show ?case by simp
qed

text \<open>
  A line whose first character is none of the marker characters passes neither
  test of the bullet branches.
\<close>

lemma first_character_no_marker:
  assumes "\<not> inClass [(45, 45), (8226, 8226), (42, 42), (48, 57)] c"
  shows "\<not> isBullet (c # t)"
proof -
  let ?f = "matchAt False (length (c # t)) (source numberedRe)"
  have "?f (drop i (c # t)) = []" if "i \<le> length (c # t)" for i
  proof (cases i)
    case 0
    with assms show ?thesis by (simp add: numberedRe_def Plus_def)
  next
    case (Suc j)
    with that have "length (drop i (c # t)) \<noteq> length (c # t)" by simp
    then show ?thesis by (simp add: numberedRe_def)
  qed
  then have "search ?f [] (c # t) = None"
    by (intro search_None) simp
  then have "\<not> test numberedRe (c # t)"
    by (simp add: test_def exec_def numberedRe_def)
  moreover from assms have "c \<noteq> 45"
    by (auto simp add: inClass_def)
  then have "\<not> startsWith (js ''-'') (c # t)"
    by (simp add: startsWith_def js_def)
  ultimately show ?thesis by (simp add: isBullet_def)
qed

section \<open>The reply section parser: how a line changes the state\<close>

lemma scanLines_Nil [simp]: "scanLines [] st = st"
  by (simp add: scanLines_def)

lemma scanLines_Cons [simp]: "scanLines (l # ls) st = scanLines ls (scanLine l st)"
  by (simp add: scanLines_def)

lemma scanLines_append: "scanLines (xs @ ys) st = scanLines ys (scanLines xs st)"
  by (simp add: scanLines_def)

lemma scanLine_header:
  "headerOf l = Some k \<Longrightarrow>
   scanLine l st = \<lparr>sections = (sections st)(k \<mapsto> opened k l), currentKey = Some k\<rparr>"
  by (simp add: scanLine_def opened_def)

lemma scanLine_closed:
  "headerOf l = None \<Longrightarrow> \<not> isArrayAtCurrent st \<Longrightarrow> scanLine l st = st"
  by (simp add: scanLine_def)

lemma scanLine_plain:
  "headerOf l = None \<Longrightarrow> \<not> isBullet l \<Longrightarrow> scanLine l st = st"
  by (simp add: scanLine_def isBullet_def)

lemma scanLine_bullet:
  "headerOf l = None \<Longrightarrow> isBullet l \<Longrightarrow> currentKey st = Some k \<Longrightarrow>
   sections st k = Some (Items xs) \<Longrightarrow>
   scanLine l st = st\<lparr>sections := (sections st)(k \<mapsto> Items (xs @ [bulletText l]))\<rparr>"
  by (auto simp add: scanLine_def isBullet_def bulletText_def isArrayAtCurrent_def push_def)

lemma scanLines_no_header:
  "\<forall>l \<in> set ls. headerOf l = None \<Longrightarrow> \<not> isArrayAtCurrent st \<Longrightarrow> scanLines ls st = st"
  by (induction ls arbitrary: st) (simp_all add: scanLine_closed)

text \<open>
  While no header comes, the open list section collects the items of the
  bullet lines, in their order.
\<close>

lemma scanLines_collect:
  "\<forall>l \<in> set ls. headerOf l = None \<Longrightarrow> currentKey st = Some k \<Longrightarrow>
   sections st k = Some (Items xs) \<Longrightarrow>
   sections (scanLines ls st)
     = (sections st)(k \<mapsto> Items (xs @ map bulletText (filter isBullet ls)))
   \<and> currentKey (scanLines ls st) = Some k"
proof (induction ls arbitrary: st xs)
  case Nil
  then show ?case by (simp add: fun_upd_idem)
next
  case (Cons l ls)
  show ?case
  proof (cases "isBullet l")
    case True
    let ?st = "st\<lparr>sections := (sections st)(k \<mapsto> Items (xs @ [bulletText l]))\<rparr>"
    from Cons.prems True have step: "scanLine l st = ?st"
      by (simp add: scanLine_bullet)
    have "\<forall>l \<in> set ls. headerOf l = None" "currentKey ?st = Some k"
      "sections ?st k = Some (Items (xs @ [bulletText l]))"
      using Cons.prems by simp_all
    from Cons.IH [OF this] step True show ?thesis
      by (simp add: fun_eq_iff)
  next
    case False
    with Cons.prems have "scanLine l st = st" by (simp add: scanLine_plain)
    with Cons.prems Cons.IH [of st xs] False show ?thesis by simp
  qed
qed

text \<open>Once another section is open, a section that is not reopened keeps its value.\<close>

lemma scanLine_other:
  "headerOf l \<noteq> Some k \<Longrightarrow> currentKey st \<noteq> Some k \<Longrightarrow>
   sections (scanLine l st) k = sections st k \<and> currentKey (scanLine l st) \<noteq> Some k"
  by (auto simp add: scanLine_def push_def split: option.splits entry.splits)

lemma scanLines_other:
  "\<forall>l \<in> set ls. headerOf l \<noteq> Some k \<Longrightarrow> currentKey st \<noteq> Some k \<Longrightarrow>
   sections (scanLines ls st) k = sections st k"
proof (induction ls arbitrary: st)
  case Nil
  then show ?case by simp
next
  case (Cons l ls)
  then show ?case using scanLine_other [of l k st] by simp
qed

text \<open>A scalar value stays until a header of its own kind comes.\<close>

lemma scanLine_scalar:
  "headerOf l \<noteq> Some k \<Longrightarrow> sections st k = Some (Text v) \<Longrightarrow>
   sections (scanLine l st) k = Some (Text v)"
  by (auto simp add: scanLine_def push_def split: option.splits entry.splits)

lemma scanLines_scalar:
  "\<forall>l \<in> set ls. headerOf l \<noteq> Some k \<Longrightarrow> sections st k = Some (Text v) \<Longrightarrow>
   sections (scanLines ls st) k = Some (Text v)"
  by (induction ls arbitrary: st) (simp_all add: scanLine_scalar)

lemma arraysUnderListKeys_initial: "arraysUnderListKeys initial"
  by (simp add: arraysUnderListKeys_def initial_def)

lemma arraysUnderListKeys_scanLine:
  "arraysUnderListKeys st \<Longrightarrow> arraysUnderListKeys (scanLine l st)"
  by (auto simp add: arraysUnderListKeys_def scanLine_def push_def
      split: option.splits entry.splits if_splits)

lemma arraysUnderListKeys_scanLines:
  "arraysUnderListKeys st \<Longrightarrow> arraysUnderListKeys (scanLines ls st)"
  by (induction ls arbitrary: st) (simp_all add: arraysUnderListKeys_scanLine)

lemma initial_closed: "\<not> isArrayAtCurrent initial"
  by (simp add: isArrayAtCurrent_def initial_def)

section \<open>The reply section parser: the claims\<close>

text \<open>
  Claim C6. Lines before the first recognised header contribute nothing: the
  reply is the one of the remaining lines. A line that is neither a header nor
  a bullet contributes nothing wherever it stands, so also under an open list
  section: the reply is the one of the text without that line; every line
  whose first character is none of \<open>-\<close>, the bullet, \<open>*\<close> and the digits is no
  bullet. No case of the parser fails. The bullet line \<open>- chest pain\<close> before its
  header \<open>Next Steps:\<close> is dropped: the section is opened empty and stays empty.
\<close>

theorem lines_outside_lists_dropped:
  "(linesOf text1 = pre @ rest \<and> (\<forall>l \<in> set pre. headerOf l = None)
      \<longrightarrow> formatBotReply text1 = scanLines rest initial)
   \<and> (linesOf text2 = xs @ l # ys \<and> headerOf l = None \<and> \<not> isBullet l
      \<longrightarrow> formatBotReply text2 = scanLines (xs @ ys) initial)
   \<and> (\<not> inClass [(45, 45), (8226, 8226), (42, 42), (48, 57)] c \<longrightarrow> \<not> isBullet (c # t))
   \<and> formatBotReply (js ''- chest pain'' @ [10] @ js ''Next Steps:'')
       = \<lparr>sections = (\<lambda>k. None)(Next_Steps \<mapsto> Items []), currentKey = Some Next_Steps\<rparr>"
proof (intro conjI impI)
  assume "linesOf text1 = pre @ rest \<and> (\<forall>l \<in> set pre. headerOf l = None)"
  then show "formatBotReply text1 = scanLines rest initial"
    by (simp add: formatBotReply_def scanLines_append scanLines_no_header initial_closed)
next
  assume "linesOf text2 = xs @ l # ys \<and> headerOf l = None \<and> \<not> isBullet l"
  then show "formatBotReply text2 = scanLines (xs @ ys) initial"
    by (simp add: formatBotReply_def scanLines_append scanLine_plain)
next
  assume "\<not> inClass [(45, 45), (8226, 8226), (42, 42), (48, 57)] c"
  then show "\<not> isBullet (c # t)"
    by (rule first_character_no_marker)
next
  show "formatBotReply (js ''- chest pain'' @ [10] @ js ''Next Steps:'')
       = \<lparr>sections = (\<lambda>k. None)(Next_Steps \<mapsto> Items []), currentKey = Some Next_Steps\<rparr>"
    by (simp add: parser_eval)
qed

theorem lines_outside_lists_dropped_witness:
  "linesOf replyWithStrayLines
     = [js ''Take care'', js ''- chest pain''] @ [js ''Next Steps:'', js ''- rest'']
   \<and> list_all (\<lambda>l. headerOf l = None) [js ''Take care'', js ''- chest pain'']
   \<and> formatBotReply replyWithStrayLines = scanLines [js ''Next Steps:'', js ''- rest''] initial
   \<and> sections (scanLines [js ''Next Steps:'', js ''- rest''] initial) Next_Steps
       = Some (Items [js ''rest''])
   \<and> linesOf replyWithPlainLine = [js ''Next Steps:''] @ js ''please rest'' # [js ''- walk'']
   \<and> headerOf (js ''please rest'') = None
   \<and> \<not> inClass [(45, 45), (8226, 8226), (42, 42), (48, 57)] 112
   \<and> \<not> isBullet (112 # js ''lease rest'')
   \<and> formatBotReply replyWithPlainLine = scanLines ([js ''Next Steps:''] @ [js ''- walk'']) initial
   \<and> sections (scanLines ([js ''Next Steps:''] @ [js ''- walk'']) initial) Next_Steps
       = Some (Items [js ''walk''])"
proof -
  note inst = lines_outside_lists_dropped
    [of replyWithStrayLines "[js ''Take care'', js ''- chest pain'']"
      "[js ''Next Steps:'', js ''- rest'']" replyWithPlainLine "[js ''Next Steps:'']"
      "js ''please rest''" "[js ''- walk'']" 112 "js ''lease rest''"]
  have a: "linesOf replyWithStrayLines
      = [js ''Take care'', js ''- chest pain''] @ [js ''Next Steps:'', js ''- rest'']"
    by (simp add: replyWithStrayLines_def parser_eval)
  have b: "\<forall>l \<in> set [js ''Take care'', js ''- chest pain'']. headerOf l = None"
    by (simp add: parser_eval)
  have c: "linesOf replyWithPlainLine = [js ''Next Steps:''] @ js ''please rest'' # [js ''- walk'']"
    by (simp add: replyWithPlainLine_def parser_eval)
  have d: "headerOf (js ''please rest'') = None"
    by (simp add: parser_eval)
  have e: "\<not> inClass [(45, 45), (8226, 8226), (42, 42), (48, 57)] 112"
    by (simp add: inClass_def)
  have shape: "js ''please rest'' = 112 # js ''lease rest''"
    by (simp add: js_def)
  from inst e have f: "\<not> isBullet (112 # js ''lease rest'')"
    by blast
  have f': "\<not> isBullet (js ''please rest'')"
    unfolding shape by (rule f)
  from inst a b have g: "formatBotReply replyWithStrayLines
      = scanLines [js ''Next Steps:'', js ''- rest''] initial"
    by blast
  from inst c d f' have h: "formatBotReply replyWithPlainLine
      = scanLines ([js ''Next Steps:''] @ [js ''- walk'']) initial"
    by blast
  have i: "sections (scanLines [js ''Next Steps:'', js ''- rest''] initial) Next_Steps
      = Some (Items [js ''rest''])"
    by (simp add: parser_eval)
  have j: "sections (scanLines ([js ''Next Steps:''] @ [js ''- walk'']) initial) Next_Steps
      = Some (Items [js ''walk''])"
    by (simp add: parser_eval)
  from b have b': "list_all (\<lambda>l. headerOf l = None) [js ''Take care'', js ''- chest pain'']"
    by (simp only: list_all_iff)
  from a b' g i c d e f h j show ?thesis
    by (intro conjI)
qed

text \<open>
  Claim C7. Let a header of kind \<open>k\<close> be followed by no other header of that
  kind. Whatever stands before it, earlier headers of kind \<open>k\<close> and what they
  collected included, the section \<open>k\<close> of the reply is decided by that last
  header and the lines after it: a list section holds the items of the bullet
  lines between the header and the next header, in their order; a scalar
  section holds the trimmed rest of the header's own line.
\<close>

theorem last_header_wins:
  assumes "linesOf reply = pre @ h # post" and "headerOf h = Some k"
    and "\<forall>l \<in> set post. headerOf l \<noteq> Some k"
  shows "sections (formatBotReply reply) k =
    Some (if k \<in> set listKeys
          then Items (map bulletText (filter isBullet (takeWhile (\<lambda>l. headerOf l = None) post)))
          else Text (trim (replace (matchers k) [] h)))"
proof -
  define st0 where "st0 = scanLines pre initial"
  define st1 where "st1 = scanLine h st0"
  have whole: "formatBotReply reply = scanLines post st1"
    using assms(1) by (simp add: formatBotReply_def scanLines_append st0_def st1_def)
  have st1: "sections st1 k = Some (opened k h)" "currentKey st1 = Some k"
    using assms(2) by (simp_all add: st1_def scanLine_header)
  show ?thesis
  proof (cases "k \<in> set listKeys")
    case False
    with st1 have "sections st1 k = Some (Text (trim (replace (matchers k) [] h)))"
      by (simp add: opened_def)
    from scanLines_scalar [OF assms(3) this] whole False show ?thesis by simp
  next
    case True
    let ?items = "takeWhile (\<lambda>l. headerOf l = None) post"
    let ?later = "dropWhile (\<lambda>l. headerOf l = None) post"
    define st2 where "st2 = scanLines ?items st1"
    have "\<forall>l \<in> set ?items. headerOf l = None"
      by (auto dest: set_takeWhileD)
    moreover from st1 True have "sections st1 k = Some (Items [])"
      by (simp add: opened_def)
    ultimately have st2:
      "sections st2 = (sections st1)(k \<mapsto> Items ([] @ map bulletText (filter isBullet ?items)))"
      "currentKey st2 = Some k"
      using scanLines_collect [of ?items st1 k "[]"] st1(2) by (simp_all add: st2_def)
    have whole2: "formatBotReply reply = scanLines ?later st2"
      using whole scanLines_append [of ?items ?later st1] by (simp add: st2_def)
    have "sections (scanLines ?later st2) k = sections st2 k"
    proof (cases ?later)
      case Nil
      show ?thesis unfolding Nil by simp
    next
      case (Cons l ls)
      then have "l \<in> set post" "set ls \<subseteq> set post"
        using set_dropWhileD [of _ "\<lambda>l. headerOf l = None" post] by auto
      with assms(3) have nk: "headerOf l \<noteq> Some k" "\<forall>l \<in> set ls. headerOf l \<noteq> Some k"
        by auto
      from Cons have "headerOf l \<noteq> None"
        using hd_dropWhile [of "\<lambda>l. headerOf l = None" post] by auto
      then obtain k' where k': "headerOf l = Some k'" by auto
      with nk have "k' \<noteq> k" by auto
      with k' have "sections (scanLine l st2) k = sections st2 k"
        "currentKey (scanLine l st2) \<noteq> Some k"
        by (simp_all add: scanLine_header)
      with scanLines_other [OF nk(2), of "scanLine l st2"] Cons show ?thesis
        by simp
    qed
    with whole2 st2 True show ?thesis by simp
  qed
qed

theorem last_header_wins_witness:
  "linesOf replyWithRepeatedHeaders =
     [js ''Severity: Low'', js ''Next Steps:'', js ''- a'', js ''Severity: High'']
     @ js ''Next Steps:''
     # [js ''- b'', js ''keep calm'', js ''1. c'', js ''Disclaimer: x'', js ''- d'']
   \<and> headerOf (js ''Next Steps:'') = Some Next_Steps
   \<and> list_all (\<lambda>l. headerOf l \<noteq> Some Next_Steps)
       [js ''- b'', js ''keep calm'', js ''1. c'', js ''Disclaimer: x'', js ''- d'']
   \<and> sections (formatBotReply replyWithRepeatedHeaders) Next_Steps
       = Some (Items [js ''b'', js ''c''])
   \<and> linesOf replyWithRepeatedHeaders =
     [js ''Severity: Low'', js ''Next Steps:'', js ''- a'']
     @ js ''Severity: High''
     # [js ''Next Steps:'', js ''- b'', js ''keep calm'', js ''1. c'', js ''Disclaimer: x'', js ''- d'']
   \<and> headerOf (js ''Severity: High'') = Some Severity
   \<and> list_all (\<lambda>l. headerOf l \<noteq> Some Severity)
       [js ''Next Steps:'', js ''- b'', js ''keep calm'', js ''1. c'', js ''Disclaimer: x'', js ''- d'']
   \<and> sections (formatBotReply replyWithRepeatedHeaders) Severity = Some (Text (js ''High''))"
proof -
  have a: "linesOf replyWithRepeatedHeaders =
     [js ''Severity: Low'', js ''Next Steps:'', js ''- a'', js ''Severity: High'']
     @ js ''Next Steps:''
     # [js ''- b'', js ''keep calm'', js ''1. c'', js ''Disclaimer: x'', js ''- d'']"
    by (simp add: replyWithRepeatedHeaders_def parser_eval)
  have b: "headerOf (js ''Next Steps:'') = Some Next_Steps"
    by (simp add: parser_eval)
  have c: "\<forall>l \<in> set [js ''- b'', js ''keep calm'', js ''1. c'', js ''Disclaimer: x'', js ''- d''].
      headerOf l \<noteq> Some Next_Steps"
    by (simp add: parser_eval)
  have d: "(if Next_Steps \<in> set listKeys
          then Items (map bulletText (filter isBullet (takeWhile (\<lambda>l. headerOf l = None)
            [js ''- b'', js ''keep calm'', js ''1. c'', js ''Disclaimer: x'', js ''- d''])))
          else Text (trim (replace (matchers Next_Steps) [] (js ''Next Steps:''))))
        = Items [js ''b'', js ''c'']"
    by (simp add: parser_eval)
  have e: "sections (formatBotReply replyWithRepeatedHeaders) Next_Steps
      = Some (Items [js ''b'', js ''c''])"
    using last_header_wins [OF a b c] by (simp only: d)
  have a': "linesOf replyWithRepeatedHeaders =
     [js ''Severity: Low'', js ''Next Steps:'', js ''- a'']
     @ js ''Severity: High''
     # [js ''Next Steps:'', js ''- b'', js ''keep calm'', js ''1. c'', js ''Disclaimer: x'', js ''- d'']"
    by (simp add: replyWithRepeatedHeaders_def parser_eval)
  have b': "headerOf (js ''Severity: High'') = Some Severity"
    by (simp add: parser_eval)
  have c': "\<forall>l \<in> set [js ''Next Steps:'', js ''- b'', js ''keep calm'', js ''1. c'', js ''Disclaimer: x'', js ''- d''].
      headerOf l \<noteq> Some Severity"
    by (simp add: parser_eval)
  have d': "(if Severity \<in> set listKeys
          then Items (map bulletText (filter isBullet (takeWhile (\<lambda>l. headerOf l = None)
            [js ''Next Steps:'', js ''- b'', js ''keep calm'', js ''1. c'', js ''Disclaimer: x'', js ''- d''])))
          else Text (trim (replace (matchers Severity) [] (js ''Severity: High''))))
        = Text (js ''High'')"
    by (simp add: parser_eval)
  have e': "sections (formatBotReply replyWithRepeatedHeaders) Severity = Some (Text (js ''High''))"
    using last_header_wins [OF a' b' c'] by (simp only: d')
  from c have c2: "list_all (\<lambda>l. headerOf l \<noteq> Some Next_Steps)
       [js ''- b'', js ''keep calm'', js ''1. c'', js ''Disclaimer: x'', js ''- d'']"
    by (simp only: list_all_iff)
  from c' have c2': "list_all (\<lambda>l. headerOf l \<noteq> Some Severity)
       [js ''Next Steps:'', js ''- b'', js ''keep calm'', js ''1. c'', js ''Disclaimer: x'', js ''- d'']"
    by (simp only: list_all_iff)
  from a b c2 e a' b' c2' e' show ?thesis
    by (intro conjI)
qed

text \<open>
  Claim C10. A line that is no header, a bullet line in particular, scanned
  while no section is open or while the current section is a scalar one, leaves
  the state as it is: nothing is appended to any list and the value of the
  scalar section stays. The reply is the one of the text without that line.
\<close>

theorem bullet_without_open_list_dropped:
  assumes "linesOf reply = ls @ l # rest" and "headerOf l = None"
    and "currentKey (scanLines ls initial) = None
         \<or> (\<exists>k. currentKey (scanLines ls initial) = Some k \<and> k \<notin> set listKeys)"
  shows "scanLine l (scanLines ls initial) = scanLines ls initial
         \<and> formatBotReply reply = scanLines (ls @ rest) initial"
proof -
  have "arraysUnderListKeys (scanLines ls initial)"
    by (simp add: arraysUnderListKeys_scanLines arraysUnderListKeys_initial)
  with assms(3) have "\<not> isArrayAtCurrent (scanLines ls initial)"
    by (auto simp add: isArrayAtCurrent_def arraysUnderListKeys_def
        split: option.splits entry.splits)
  with assms(2) have "scanLine l (scanLines ls initial) = scanLines ls initial"
    by (rule scanLine_closed)
  with assms(1) show ?thesis
    by (simp add: formatBotReply_def scanLines_append)
qed

theorem bullet_without_open_list_dropped_witness:
  "linesOf replyWithBulletUnderScalar
     = [js ''Severity: High''] @ js ''- stray'' # [js ''Next Steps:'', js ''- x'']
   \<and> headerOf (js ''- stray'') = None \<and> isBullet (js ''- stray'')
   \<and> currentKey (scanLines [js ''Severity: High''] initial) = Some Severity
   \<and> Severity \<notin> set listKeys
   \<and> scanLine (js ''- stray'') (scanLines [js ''Severity: High''] initial)
       = scanLines [js ''Severity: High''] initial
   \<and> formatBotReply replyWithBulletUnderScalar
       = scanLines ([js ''Severity: High''] @ [js ''Next Steps:'', js ''- x'']) initial
   \<and> sections (formatBotReply replyWithBulletUnderScalar) Severity = Some (Text (js ''High''))
   \<and> sections (formatBotReply replyWithBulletUnderScalar) Next_Steps = Some (Items [js ''x''])
   \<and> linesOf replyWithBulletFirst = [] @ js ''- stray'' # [js ''Severity: High'']
   \<and> currentKey (scanLines [] initial) = None
   \<and> formatBotReply replyWithBulletFirst = scanLines ([] @ [js ''Severity: High'']) initial"
proof -
  have a: "linesOf replyWithBulletUnderScalar
      = [js ''Severity: High''] @ js ''- stray'' # [js ''Next Steps:'', js ''- x'']"
    by (simp add: replyWithBulletUnderScalar_def parser_eval)
  have b: "headerOf (js ''- stray'') = None" "isBullet (js ''- stray'')"
    by (simp_all add: parser_eval)
  have c: "currentKey (scanLines [js ''Severity: High''] initial) = Some Severity"
    "Severity \<notin> set listKeys"
    by (simp_all add: parser_eval)
  then have c2: "currentKey (scanLines [js ''Severity: High''] initial) = None
      \<or> (\<exists>k. currentKey (scanLines [js ''Severity: High''] initial) = Some k
           \<and> k \<notin> set listKeys)"
    by blast
  note one = bullet_without_open_list_dropped [OF a b(1) c2]
  have d: "sections (formatBotReply replyWithBulletUnderScalar) Severity = Some (Text (js ''High''))"
    "sections (formatBotReply replyWithBulletUnderScalar) Next_Steps = Some (Items [js ''x''])"
    unfolding one [THEN conjunct2] by (simp_all add: parser_eval)
  have a': "linesOf replyWithBulletFirst = [] @ js ''- stray'' # [js ''Severity: High'']"
    by (simp add: replyWithBulletFirst_def parser_eval)
  have c': "currentKey (scanLines [] initial) = None"
    by (simp add: initial_def)
  then have c2': "currentKey (scanLines [] initial) = None
      \<or> (\<exists>k. currentKey (scanLines [] initial) = Some k \<and> k \<notin> set listKeys)"
    by (rule disjI1)
  note two = bullet_without_open_list_dropped [OF a' b(1) c2']
  from a b c one [THEN conjunct1] one [THEN conjunct2] d a' c' two [THEN conjunct2]
  show ?thesis
    by (intro conjI)
qed

text \<open>
  Claim C3. Under the open section \<open>Next Steps\<close> the lines \<open>- a\<close> and \<open>1. d\<close> are
  stripped of their markers and appended in their order, but the lines
  \<open>* b\<close> and \<open>\<bullet> c\<close> are not appended: the test \<open>/^[-\<bullet>*0-9]+\./\<close> asks for a dot
  after the markers, which only the numbered form has. The expression that
  strips the markers would have left \<open>rest\<close> of \<open>* rest\<close>.
\<close>

theorem star_and_dot_bullets_dropped:
  "sections (formatBotReply (js ''Next Steps:'' @ [10] @ js ''- a'' @ [10] @ js ''* b'' @ [10]
      @ [8226] @ js '' c'' @ [10] @ js ''1. d'')) Next_Steps = Some (Items [js ''a'', js ''d''])
   \<and> sections (formatBotReply (js ''Next Steps:'' @ [10] @ js ''* rest'')) Next_Steps
       = Some (Items [])
   \<and> test numberedRe (js ''* rest'') = False
   \<and> trim (replace markerRe [] (js ''* rest'')) = js ''rest''"
  by (simp add: parser_eval)



section \<open>The chat client: the balance of the device\<close>

lemma sendMessage_device [simp]:
  "acquired (sendMessage t s) = acquired s" "released (sendMessage t s) = released s"
  "isListening (sendMessage t s) = isListening s"
  "mediaRecorderRef (sendMessage t s) = mediaRecorderRef s"
  by (simp_all add: sendMessage_def Let_def)

lemma balanced_startListening:
  "balanced s \<Longrightarrow> \<not> recorderThrows (StartListening a) \<Longrightarrow> balanced (startListening a s)"
  by (cases a)
    (auto simp add: balanced_def startListening_def startListeningCalled_def
      getUserMediaSettled_def Let_def)

lemma balanced_stopListening: "balanced s \<Longrightarrow> balanced (stopListening n u s)"
  by (auto simp add: balanced_def stopListening_def onstop_def ondataavailable_def Let_def
      split: option.splits)

lemma balanced_handle:
  "balanced s \<Longrightarrow> \<not> recorderThrows e \<Longrightarrow> \<not> halfCall e \<Longrightarrow> balanced (handle s e)"
proof (cases e)
  case (StartListening a)
  assume "balanced s" "\<not> recorderThrows e"
  with StartListening show ?thesis by (simp add: balanced_startListening)
next
  case (ToggleListening a n u)
  assume "balanced s" "\<not> recorderThrows e"
  with ToggleListening have "\<not> recorderThrows (StartListening a)"
    by (cases a) simp_all
  with \<open>balanced s\<close> ToggleListening show ?thesis
    by (simp add: toggleListening_def balanced_startListening balanced_stopListening)
next
  case (StopListening n u)
  assume "balanced s"
  with StopListening show ?thesis by (simp add: balanced_stopListening)
next
  case (TranscribeSettled r)
  assume "balanced s"
  with TranscribeSettled show ?thesis
    by (auto simp add: balanced_def transcribeSettled_def Let_def split: settled.splits)
next
  case (ChatSettled r)
  assume "balanced s"
  with ChatSettled show ?thesis
    by (auto simp add: balanced_def chatSettled_def split: settled.splits)
qed (auto simp add: balanced_def)

lemma balanced_run:
  "balanced s \<Longrightarrow> \<forall>e \<in> set evs. \<not> recorderThrows e \<and> \<not> halfCall e \<Longrightarrow>
   balanced (run evs s)"
  unfolding run_def
  by (induction evs arbitrary: s) (simp_all add: balanced_handle)

lemma balanced_mounted: "balanced mounted"
  by (simp add: balanced_def mounted_def)

text \<open>
  When no call of \<open>startListening\<close> is interrupted and the recorder does not
  throw after the stream was granted, the code keeps the balance: the streams
  acquired are the streams released, and one more exactly while the component
  is listening; stopping a listening component releases one stream; starting
  while listening or transcribing does nothing.
\<close>

lemma uninterrupted_runs_balanced:
  assumes "\<forall>e \<in> set evs. \<not> recorderThrows e \<and> \<not> halfCall e"
  shows "acquired (run evs mounted)
           = released (run evs mounted) + (if isListening (run evs mounted) then 1 else 0)
         \<and> (isListening (run evs mounted) \<longrightarrow>
              released (stopListening n u (run evs mounted)) = released (run evs mounted) + 1
              \<and> \<not> isListening (stopListening n u (run evs mounted)))
         \<and> (isListening (run evs mounted) \<or> isTranscribing (run evs mounted) \<longrightarrow>
              startListening a (run evs mounted) = run evs mounted)"
proof -
  from assms have "balanced (run evs mounted)"
    by (simp add: balanced_run balanced_mounted)
  then show ?thesis
    by (auto simp add: balanced_def stopListening_def onstop_def ondataavailable_def Let_def
        startListening_def split: option.splits)
qed

section \<open>The chat client: the claims\<close>

text \<open>
  Claim C5. Dispatching a text whose trimmed value is empty changes nothing:
  the state after \<open>sendMessage\<close> is the state before it, so no message is
  appended and no request is issued. The text is the argument, or the input
  field when the argument is not a string.
\<close>

theorem sendMessage_blank:
  "trim (case textOverride of Some v \<Rightarrow> v | None \<Rightarrow> input s) = [] \<Longrightarrow>
   sendMessage textOverride s = s"
  by (simp add: sendMessage_def)

theorem sendMessage_blank_witness:
  "trim (case Some (js '' '' @ [9, 32]) of Some v \<Rightarrow> v | None \<Rightarrow> input mounted) = []
   \<and> sendMessage (Some (js '' '' @ [9, 32])) mounted = mounted
   \<and> messages (sendMessage (Some (js '' '' @ [9, 32])) mounted) = []
   \<and> fetched (sendMessage (Some (js '' '' @ [9, 32])) mounted) = []"
proof -
  have blank: "trim (case Some (js '' '' @ [9, 32]) of Some v \<Rightarrow> v | None \<Rightarrow> input mounted) = []"
    by (simp add: string_eval)
  from sendMessage_blank [OF blank] blank show ?thesis
    by (simp add: mounted_def)
qed

text \<open>
  Claim C4. When the chunks of the recording add up to fewer than 500 bytes,
  the \<open>onstop\<close> handler issues no request, does not enter the transcribing
  state and reports that no audio was captured.
\<close>

theorem onstop_small_blob:
  "sum_list (audioChunksRef s) < 500 \<Longrightarrow>
   fetched (onstop r dataUrl s) = fetched s
   \<and> isTranscribing (onstop r dataUrl s) = isTranscribing s
   \<and> voiceError (onstop r dataUrl s) = Some (js ''No audio captured. Please try again.'')"
  by (simp add: onstop_def Let_def)

theorem onstop_small_blob_witness:
  "sum_list (audioChunksRef (mounted\<lparr>audioChunksRef := [200, 299]\<rparr>)) < 500
   \<and> fetched (onstop opusRecorder opusDataUrl (mounted\<lparr>audioChunksRef := [200, 299]\<rparr>)) = []
   \<and> isTranscribing (onstop opusRecorder opusDataUrl (mounted\<lparr>audioChunksRef := [200, 299]\<rparr>))
       = False
   \<and> voiceError (onstop opusRecorder opusDataUrl (mounted\<lparr>audioChunksRef := [200, 299]\<rparr>))
       = Some (js ''No audio captured. Please try again.'')"
proof -
  have small: "sum_list (audioChunksRef (mounted\<lparr>audioChunksRef := [200, 299]\<rparr>)) < 500"
    by simp
  from onstop_small_blob [OF small] small show ?thesis
    by (simp add: mounted_def)
qed

text \<open>
  Claim C2. The device is to be acquired at most once per session and released
  once per acquisition on every path. The code does not do so on two runs.
  When the stream is granted and the \<open>MediaRecorder\<close> constructor throws, the
  \<open>catch\<close> block does not stop the stream, and a later \<open>stop()\<close> returns at its
  guard: one stream acquired, none released. When \<open>startListening\<close> is called
  a second time while the first call still awaits \<open>getUserMedia\<close>, the guard
  lets it pass, both calls acquire a stream, and \<open>stop()\<close> releases the one of
  the recorder in \<open>mediaRecorderRef\<close> only: two streams acquired in one
  session, one released, and the component no longer listening.
\<close>

theorem device_leaked_on_error_paths:
  "acquired (run throwingStart mounted) = 1
   \<and> released (run throwingStart mounted) = 0
   \<and> isListening (run throwingStart mounted) = False
   \<and> acquired (run doubleStart mounted) = 2
   \<and> released (run doubleStart mounted) = 1
   \<and> isListening (run doubleStart mounted) = False
   \<and> pendingGetUserMedia (run doubleStart mounted) = 0"
  by (simp add: throwingStart_def doubleStart_def client_eval)

text \<open>
  Claim C1, as stated, fails: for a recorder whose mime type is
  \<open>audio/webm;codecs=opus\<close> the client sends that very text as \<open>mimeType\<close> to
  the transcription endpoint, not \<open>audio/webm\<close>.
\<close>

theorem client_sends_codec_parameter:
  "fetched (run [StartListening (Recording (js ''audio/webm;codecs=opus'')),
       StopListening 2000 (js ''data:audio/webm;codecs=opus;base64,QUJD'')] mounted)
     = [PostTranscribe (Some (js ''QUJD'')) (js ''audio/webm;codecs=opus'')]
   \<and> js ''audio/webm;codecs=opus'' \<noteq> js ''audio/webm''"
  by (simp add: client_eval string_eval)

section \<open>The transcription endpoint: the claims\<close>

text \<open>
  Claim C1, as the code has it. The client sends the mime type of the recorder
  as it is (\<open>audio/webm\<close> when the recorder has none). The handler of the
  endpoint removes the parameter: the mime type that it gives to the provider
  has no semicolon, and for a text with a semicolon it is the trimmed text
  before the first one. The response depends on the provider only through its
  answer to the call with that mime type. So for a recording of 500 bytes or
  more whose mime type has a parameter, the request of the client, handled by
  the endpoint, reaches the provider with the bare container type.
\<close>

theorem codec_parameter_removed_by_server:
  "(500 \<le> sum_list (audioChunksRef s) \<longrightarrow>
      fetched (onstop r dataUrl s) = fetched s @
        [PostTranscribe (second (split 44 dataUrl))
           (orElse (Some (recorderMimeType r)) (js ''audio/webm''))])
   \<and> (59 \<notin> set container \<longrightarrow> safeMimeType (Some (container @ 59 # params)) = trim container)
   \<and> 59 \<notin> set (safeMimeType mt)
   \<and> (audio body = Some a \<and> a \<noteq> [] \<longrightarrow>
        transcribe g body =
          transcribe (\<lambda>call. g \<lparr>inlineMimeType = safeMimeType (mimeType body), inlineBytes = a\<rparr>)
            body)
   \<and> (500 \<le> sum_list (audioChunksRef s') \<and> recorderMimeType r' = container' @ 59 # params'
        \<and> 59 \<notin> set container' \<and> second (split 44 dataUrl') = Some a' \<and> a' \<noteq> [] \<longrightarrow>
        (\<exists>req b. fetched (onstop r' dataUrl' s') = fetched s' @ [req] \<and> bodyOf req = Some b
           \<and> transcribe g' b =
               transcribe (\<lambda>call. g' \<lparr>inlineMimeType = trim container', inlineBytes = a'\<rparr>) b))"
proof (intro conjI impI)
  assume "500 \<le> sum_list (audioChunksRef s)"
  then show "fetched (onstop r dataUrl s) = fetched s @
        [PostTranscribe (second (split 44 dataUrl))
           (orElse (Some (recorderMimeType r)) (js ''audio/webm''))]"
    by (simp add: onstop_def Let_def)
next
  assume "59 \<notin> set container"
  then have "takeWhile (\<lambda>x. x \<noteq> 59) (container @ 59 # params) = container"
    by (rule takeWhile_upto)
  then show "safeMimeType (Some (container @ 59 # params)) = trim container"
    by (simp add: safeMimeType_def orElse_def hd_split)
next
  have "59 \<notin> set (takeWhile (\<lambda>x. x \<noteq> 59) (orElse mt (js ''audio/webm'')))"
    by (auto dest: set_takeWhileD)
  then show "59 \<notin> set (safeMimeType mt)"
    using set_trim by (auto simp add: safeMimeType_def hd_split)
next
  assume "audio body = Some a \<and> a \<noteq> []"
  then show "transcribe g body =
      transcribe (\<lambda>call. g \<lparr>inlineMimeType = safeMimeType (mimeType body), inlineBytes = a\<rparr>)
        body"
    by (simp add: transcribe_def orElse_def)
next
  assume h: "500 \<le> sum_list (audioChunksRef s') \<and> recorderMimeType r' = container' @ 59 # params'
        \<and> 59 \<notin> set container' \<and> second (split 44 dataUrl') = Some a' \<and> a' \<noteq> []"
  let ?req = "PostTranscribe (Some a') (container' @ 59 # params')"
  let ?b = "\<lparr>audio = Some a', mimeType = Some (container' @ 59 # params')\<rparr>"
  from h have sent: "fetched (onstop r' dataUrl' s') = fetched s' @ [?req]"
    by (simp add: onstop_def Let_def orElse_def)
  from h have "takeWhile (\<lambda>x. x \<noteq> 59) (container' @ 59 # params') = container'"
    by (simp add: takeWhile_upto)
  then have "safeMimeType (mimeType ?b) = trim container'"
    by (simp add: safeMimeType_def orElse_def hd_split)
  with h have "transcribe g' ?b =
      transcribe (\<lambda>call. g' \<lparr>inlineMimeType = trim container', inlineBytes = a'\<rparr>) ?b"
    by (simp add: transcribe_def orElse_def)
  with sent show "\<exists>req b. fetched (onstop r' dataUrl' s') = fetched s' @ [req]
      \<and> bodyOf req = Some b
      \<and> transcribe g' b =
          transcribe (\<lambda>call. g' \<lparr>inlineMimeType = trim container', inlineBytes = a'\<rparr>) b"
    by (intro exI [of _ ?req] exI [of _ ?b]) simp
qed

theorem codec_parameter_removed_by_server_witness:
  "500 \<le> sum_list (audioChunksRef (mounted\<lparr>audioChunksRef := [2000]\<rparr>))
   \<and> fetched (onstop opusRecorder opusDataUrl (mounted\<lparr>audioChunksRef := [2000]\<rparr>))
       = [PostTranscribe (Some (js ''QUJD'')) (js ''audio/webm;codecs=opus'')]
   \<and> 59 \<notin> set (js ''audio/webm'')
   \<and> safeMimeType (Some (js ''audio/webm'' @ 59 # js ''codecs=opus'')) = js ''audio/webm''
   \<and> recorderMimeType opusRecorder = js ''audio/webm'' @ 59 # js ''codecs=opus''
   \<and> second (split 44 opusDataUrl) = Some (js ''QUJD'')
   \<and> bodyOf (PostTranscribe (Some (js ''QUJD'')) (js ''audio/webm;codecs=opus'')) = Some opusBody
   \<and> audio opusBody = Some (js ''QUJD'') \<and> js ''QUJD'' \<noteq> []
   \<and> transcribe headacheProvider opusBody
       = Json 200 (TranscriptPayload (js ''I have a headache''))"
proof -
  note inst = codec_parameter_removed_by_server
    [of "mounted\<lparr>audioChunksRef := [2000]\<rparr>" opusRecorder opusDataUrl "js ''audio/webm''"
      "js ''codecs=opus''" "Some (js ''audio/webm;codecs=opus'')" opusBody "js ''QUJD''"
      headacheProvider]
  have a: "500 \<le> sum_list (audioChunksRef (mounted\<lparr>audioChunksRef := [2000]\<rparr>))"
    by simp
  have b: "59 \<notin> set (js ''audio/webm'')"
    by (simp add: js_def)
  have c: "audio opusBody = Some (js ''QUJD'')" "js ''QUJD'' \<noteq> []"
    by (simp_all add: opusBody_def js_def)
  have c': "recorderMimeType opusRecorder = js ''audio/webm'' @ 59 # js ''codecs=opus''"
    "second (split 44 opusDataUrl) = Some (js ''QUJD'')"
    "bodyOf (PostTranscribe (Some (js ''QUJD'')) (js ''audio/webm;codecs=opus'')) = Some opusBody"
    by (simp_all add: opusRecorder_def opusDataUrl_def opusBody_def js_def)
  from inst a have d: "fetched (onstop opusRecorder opusDataUrl (mounted\<lparr>audioChunksRef := [2000]\<rparr>))
      = [PostTranscribe (Some (js ''QUJD'')) (js ''audio/webm;codecs=opus'')]"
    by (simp add: mounted_def opusRecorder_def opusDataUrl_def string_eval)
  from inst b have e: "safeMimeType (Some (js ''audio/webm'' @ 59 # js ''codecs=opus'')) = js ''audio/webm''"
    by (simp add: string_eval)
  have f: "safeMimeType (mimeType opusBody) = js ''audio/webm''"
    by (simp add: safeMimeType_def opusBody_def string_eval)
  from inst c have "transcribe headacheProvider opusBody =
      transcribe (\<lambda>call. headacheProvider
        \<lparr>inlineMimeType = safeMimeType (mimeType opusBody), inlineBytes = js ''QUJD''\<rparr>) opusBody"
    by blast
  also have "\<dots> = Json 200 (TranscriptPayload (js ''I have a headache''))"
    unfolding f by (simp add: transcribe_def headacheProvider_def opusBody_def string_eval)
  finally have g: "transcribe headacheProvider opusBody
      = Json 200 (TranscriptPayload (js ''I have a headache''))" .
  from a d b e c' c g show ?thesis
    by (intro conjI)
qed

text \<open>
  Claim C8. The handler of the transcription endpoint answers 400 when the
  audio is missing (or empty); 422 when the provider returns a text that is
  empty once trimmed; and 500 when the provider throws, with the message of
  the provider's error as it is when the error has one, and with
  \<open>Transcription failed\<close> otherwise.
\<close>

theorem transcribe_status:
  "(audio body1 = None \<or> audio body1 = Some [] \<longrightarrow>
      transcribe g1 body1 = Json 400 (ErrorPayload (js ''Audio data required'')))
   \<and> (audio body2 = Some a2 \<and> a2 \<noteq> []
        \<and> g2 \<lparr>inlineMimeType = safeMimeType (mimeType body2), inlineBytes = a2\<rparr> = Generated t
        \<and> trim t = [] \<longrightarrow>
      transcribe g2 body2 = Json 422 (ErrorPayload (js
        ''Gemini returned an empty transcript. Audio may be too quiet or silent.'')))
   \<and> (audio body3 = Some a3 \<and> a3 \<noteq> []
        \<and> g3 \<lparr>inlineMimeType = safeMimeType (mimeType body3), inlineBytes = a3\<rparr> = Threw (Some m)
        \<and> m \<noteq> [] \<longrightarrow>
      transcribe g3 body3 = Json 500 (ErrorPayload m))
   \<and> (audio body4 = Some a4 \<and> a4 \<noteq> []
        \<and> g4 \<lparr>inlineMimeType = safeMimeType (mimeType body4), inlineBytes = a4\<rparr> = Threw None
        \<longrightarrow>
      transcribe g4 body4 = Json 500 (ErrorPayload (js ''Transcription failed'')))"
  by (auto simp add: transcribe_def orElse_def Let_def)

theorem transcribe_status_witness:
  "transcribe (\<lambda>call. Generated (js ''hello'')) \<lparr>audio = None, mimeType = Some (js ''audio/webm'')\<rparr>
     = Json 400 (ErrorPayload (js ''Audio data required''))
   \<and> transcribe (\<lambda>call. Generated (js ''  '')) \<lparr>audio = Some (js ''QUJD''), mimeType = None\<rparr>
     = Json 422 (ErrorPayload (js
        ''Gemini returned an empty transcript. Audio may be too quiet or silent.''))
   \<and> transcribe (\<lambda>call. Threw (Some (js ''quota exceeded'')))
        \<lparr>audio = Some (js ''QUJD''), mimeType = None\<rparr>
     = Json 500 (ErrorPayload (js ''quota exceeded''))
   \<and> transcribe (\<lambda>call. Threw None) \<lparr>audio = Some (js ''QUJD''), mimeType = None\<rparr>
     = Json 500 (ErrorPayload (js ''Transcription failed''))"
proof -
  note inst = transcribe_status
    [of "\<lparr>audio = None, mimeType = Some (js ''audio/webm'')\<rparr>" "\<lambda>call. Generated (js ''hello'')"
      "\<lparr>audio = Some (js ''QUJD''), mimeType = None\<rparr>" "js ''QUJD''" "\<lambda>call. Generated (js ''  '')"
      "js ''  ''"
      "\<lparr>audio = Some (js ''QUJD''), mimeType = None\<rparr>" "js ''QUJD''"
      "\<lambda>call. Threw (Some (js ''quota exceeded''))" "js ''quota exceeded''"
      "\<lparr>audio = Some (js ''QUJD''), mimeType = None\<rparr>" "js ''QUJD''" "\<lambda>call. Threw None"]
  have a: "js ''QUJD'' \<noteq> []" "trim (js ''  '') = []" "js ''quota exceeded'' \<noteq> []"
    by (simp_all add: string_eval)
  from inst a show ?thesis
    by simp
qed

end
